theory Spec2Isabelle
  imports Main "HOL-Library.Sublist" "HOL-Library.Finite_Map" "HOL-Library.Word"
begin

section \<open>Paths and the self-nesting guard of the directory copier\<close>

text \<open>
  The scripts \<^verbatim>\<open>fix_clippy.py\<close> and \<^verbatim>\<open>fix_clippy_v3.py\<close> rewrite a guard of
  \<^verbatim>\<open>src/fs.rs\<close>. The guard works on \<^verbatim>\<open>std::path\<close> values. Every operation it uses
  (\<^verbatim>\<open>parent\<close>, \<^verbatim>\<open>starts_with\<close>) is defined by the standard library on the component
  sequence of a path, so a path is modelled as that sequence.
\<close>

datatype component = RootDir | CurDir | ParentDir | Normal string

type_synonym path = "component list"

text \<open>Splitting a Unix path string at every \<^verbatim>\<open>/\<close>.\<close>

fun split_sep :: "string \<Rightarrow> string list" where
  "split_sep [] = [[]]"
| "split_sep (c # cs) =
     (if c = CHR ''/'' then [] # split_sep cs
      else (case split_sep cs of
              [] \<Rightarrow> [[c]]
            | seg # segs \<Rightarrow> (c # seg) # segs))"

definition has_root :: "string \<Rightarrow> bool" where
  "has_root s = (case s of [] \<Rightarrow> False | c # _ \<Rightarrow> c = CHR ''/'')"

definition include_cur_dir :: "string \<Rightarrow> bool" where
  "include_cur_dir s =
     (\<not> has_root s \<and> (case split_sep s of [] \<Rightarrow> False | seg # _ \<Rightarrow> seg = ''.''))"

definition seg_component :: "string \<Rightarrow> component option" where
  "seg_component seg =
     (if seg = [] then None
      else if seg = ''.'' then None
      else if seg = ''..'' then Some ParentDir
      else Some (Normal seg))"

text \<open>
  \<^verbatim>\<open>Path::new(s).components()\<close> on Unix: the root, a leading \<^verbatim>\<open>.\<close> of a relative
  path, and then the segments, where empty segments and inner \<^verbatim>\<open>.\<close> segments are dropped.
\<close>

definition components :: "string \<Rightarrow> path" where
  "components s =
     (if has_root s then [RootDir] else if include_cur_dir s then [CurDir] else [])
     @ List.map_filter seg_component (split_sep s)"

text \<open>
  \<^verbatim>\<open>Path::parent\<close>: the path without its last component; nothing for the root and for
  the empty path.
\<close>

definition parent :: "path \<Rightarrow> path option" where
  "parent p =
     (case rev p of
        [] \<Rightarrow> None
      | c # _ \<Rightarrow> (case c of RootDir \<Rightarrow> None | _ \<Rightarrow> Some (butlast p)))"

text \<open>
  \<^verbatim>\<open>Path::starts_with\<close> is \<^verbatim>\<open>iter_after(self.components(), base.components()).is_some()\<close>:
  the components of the base are consumed one by one from the front.
\<close>

fun iter_after :: "path \<Rightarrow> path \<Rightarrow> path option" where
  "iter_after iter [] = Some iter"
| "iter_after [] (y # ys) = None"
| "iter_after (x # xs) (y # ys) = (if x = y then iter_after xs ys else None)"

definition starts_with :: "path \<Rightarrow> path \<Rightarrow> bool" where
  "starts_with p base = (iter_after p base \<noteq> None)"

text \<open>
  An \<^verbatim>\<open>std::io::Error\<close>: its kind and its message. The message of \<^verbatim>\<open>format!\<close> is kept as
  the pieces of the format string, with the paths that are rendered by \<^verbatim>\<open>{:?}\<close>.
\<close>

datatype error_kind = InvalidInput | NotFound | PermissionDenied

datatype piece = Lit string | Dbg path

datatype io_error = Io_error error_kind "piece list"

definition ok :: "'e + 'a \<Rightarrow> 'a option" where
  "ok r = (case r of Inl _ \<Rightarrow> None | Inr v \<Rightarrow> Some v)"

definition filter_option :: "('a \<Rightarrow> bool) \<Rightarrow> 'a option \<Rightarrow> 'a option" where
  "filter_option P x = (case x of None \<Rightarrow> None | Some v \<Rightarrow> if P v then Some v else None)"

definition is_some :: "'a option \<Rightarrow> bool" where
  "is_some x = (case x of None \<Rightarrow> False | Some _ \<Rightarrow> True)"

definition into_itself :: "path \<Rightarrow> path \<Rightarrow> io_error" where
  "into_itself dst_abs src_canon =
     Io_error InvalidInput
       [Lit ''Cannot copy directory into itself: '', Dbg dst_abs,
        Lit '' is inside '', Dbg src_canon]"

text \<open>
  The guard before the rewrite (\<^verbatim>\<open>old_fs\<close> of \<^verbatim>\<open>fix_clippy.py\<close>). \<^verbatim>\<open>fs::canonicalize\<close> is
  the operating system's; it is the parameter \<open>canonicalize\<close>. \<open>Inl e\<close> is the early
  \<^verbatim>\<open>return Err(e.into())\<close>, \<open>Inr ()\<close> is falling through to the rest of the function.
\<close>

definition old_fs :: "(path \<Rightarrow> io_error + path) \<Rightarrow> path \<Rightarrow> path \<Rightarrow> io_error + unit" where
  "old_fs canonicalize dst_abs src_canon =
     (case parent dst_abs of
        Some parent' \<Rightarrow>
          (case canonicalize parent' of
             Inr parent_canon \<Rightarrow>
               if starts_with parent_canon src_canon
               then Inl (into_itself dst_abs src_canon)
               else Inr ()
           | Inl _ \<Rightarrow> Inr ())
      | None \<Rightarrow> Inr ())"

text \<open>The guard after the rewrite (\<^verbatim>\<open>new_fs\<close> of \<^verbatim>\<open>fix_clippy.py\<close>).\<close>

definition new_fs :: "(path \<Rightarrow> io_error + path) \<Rightarrow> path \<Rightarrow> path \<Rightarrow> io_error + unit" where
  "new_fs canonicalize dst_abs src_canon =
     (case Option.bind (parent dst_abs) (\<lambda>p. ok (canonicalize p)) of
        Some parent_canon \<Rightarrow>
          if starts_with parent_canon src_canon
          then Inl (into_itself dst_abs src_canon)
          else Inr ()
      | None \<Rightarrow> Inr ())"

text \<open>
  \<^verbatim>\<open>fix_clippy_v3.py\<close> rewrites the head of the guard only: the condition under which
  its body (the early return) runs. \<^verbatim>\<open>old_fs\<close> there binds the filtered option with
  \<^verbatim>\<open>if let Some(parent_canon)\<close>, \<^verbatim>\<open>new_fs\<close> asks \<^verbatim>\<open>is_some()\<close>.
\<close>

definition old_fs_v3 :: "(path \<Rightarrow> io_error + path) \<Rightarrow> path \<Rightarrow> path \<Rightarrow> bool" where
  "old_fs_v3 canonicalize dst_abs src_canon =
     (case filter_option (\<lambda>p. starts_with p src_canon)
             (Option.bind (parent dst_abs) (\<lambda>p. ok (canonicalize p))) of
        Some parent_canon \<Rightarrow> True
      | None \<Rightarrow> False)"

definition new_fs_v3 :: "(path \<Rightarrow> io_error + path) \<Rightarrow> path \<Rightarrow> path \<Rightarrow> bool" where
  "new_fs_v3 canonicalize dst_abs src_canon =
     is_some (filter_option (\<lambda>p. starts_with p src_canon)
                (Option.bind (parent dst_abs) (\<lambda>p. ok (canonicalize p))))"

text \<open>
  Modelled from the spec: the directory copier around the guard. \<^verbatim>\<open>src/fs.rs\<close> is not
  among the sources, only the guard is. Section 4.3 of the specification gives the
  order of the copier: canonicalize the source root once (a source root that does not
  exist is an error with no destination side effects), run the guard before creating
  anything, then replicate the tree. The replication that follows the guard is the
  parameter \<open>copy_tree\<close>; the file system is a state \<open>fs\<close> that only \<open>copy_tree\<close> changes.
\<close>

definition copy_dir ::
  "('fs \<Rightarrow> path \<Rightarrow> io_error + path) \<Rightarrow> ('fs \<Rightarrow> path \<Rightarrow> path \<Rightarrow> (io_error + unit) \<times> 'fs) \<Rightarrow>
   'fs \<Rightarrow> path \<Rightarrow> path \<Rightarrow> (io_error + unit) \<times> 'fs" where
  "copy_dir canonicalize copy_tree fs src dst_abs =
     (case canonicalize fs src of
        Inl e \<Rightarrow> (Inl e, fs)
      | Inr src_canon \<Rightarrow>
          (case new_fs (canonicalize fs) dst_abs src_canon of
             Inl e \<Rightarrow> (Inl e, fs)
           | Inr _ \<Rightarrow> copy_tree fs src_canon dst_abs))"

text \<open>
  Modelled from the spec: the path resolution of section 4.1, which the guard does not
  have. A path that does not canonicalize is resolved by walking up to the nearest
  ancestor that does, and reattaching the suffix that does not exist.
\<close>

function resolve :: "(path \<Rightarrow> io_error + path) \<Rightarrow> path \<Rightarrow> path option" where
  "resolve canonicalize p =
     (case canonicalize p of
        Inr c \<Rightarrow> Some c
      | Inl _ \<Rightarrow>
          (case parent p of
             None \<Rightarrow> None
           | Some q \<Rightarrow> map_option (\<lambda>c. c @ [last p]) (resolve canonicalize q)))"
  by pat_completeness auto
termination
  by (relation "measure (\<lambda>(canonicalize, p). length p)")
     (auto simp: parent_def split: list.splits component.splits)

text \<open>
  A file system for the examples: no symbolic links, given by the list of the canonical
  paths of its directories. A path canonicalizes to itself when it is one of them and is
  not found otherwise. Replicating into a destination creates the destination.
\<close>

definition canonicalize_plain :: "path list \<Rightarrow> path \<Rightarrow> io_error + path" where
  "canonicalize_plain fs p = (if p \<in> set fs then Inr p else Inl (Io_error NotFound []))"

definition copy_tree_plain :: "path list \<Rightarrow> path \<Rightarrow> path \<Rightarrow> (io_error + unit) \<times> path list" where
  "copy_tree_plain fs src_canon dst_abs = (Inr (), dst_abs # fs)"

section \<open>The documents of the adapters and \<^verbatim>\<open>parse_existing\<close>\<close>

text \<open>
  \<^verbatim>\<open>fix_clippy.py\<close>, \<^verbatim>\<open>fix_clippy_v2.py\<close> and \<^verbatim>\<open>fix_clippy_v3.py\<close> rewrite the two
  \<^verbatim>\<open>parse_existing\<close> functions of \<^verbatim>\<open>src/mcp.rs\<close>. The documents are
  \<^verbatim>\<open>serde_json::Value\<close> and \<^verbatim>\<open>serde_yaml::Value\<close>. A number is one of serde's three
  cases, each in its 64 bits.
\<close>

datatype number = PosInt "64 word" | NegInt "64 word" | Float "64 word"

datatype json =
    JNull
  | JBool bool
  | JNumber number
  | JString string
  | JArray "json list"
  | JObject "(string \<times> json) list"

datatype yaml =
    YNull
  | YBool bool
  | YNumber number
  | YString string
  | YSequence "yaml list"
  | YMapping "(yaml \<times> yaml) list"
  | YTagged string yaml

text \<open>\<^verbatim>\<open>serde_json::Value::get\<close> with a string index, and \<^verbatim>\<open>as_object\<close>.\<close>

definition json_get :: "json \<Rightarrow> string \<Rightarrow> json option" where
  "json_get v key = (case v of JObject m \<Rightarrow> map_of m key | _ \<Rightarrow> None)"

definition as_object :: "json \<Rightarrow> (string \<times> json) list option" where
  "as_object v = (case v of JObject m \<Rightarrow> Some m | _ \<Rightarrow> None)"

text \<open>
  \<^verbatim>\<open>serde_yaml::Value\<close>: \<^verbatim>\<open>get\<close> with a string index, \<^verbatim>\<open>as_mapping\<close> and \<^verbatim>\<open>as_str\<close>
  look through tags (\<^verbatim>\<open>untag_ref\<close>).
\<close>

fun untag_ref :: "yaml \<Rightarrow> yaml" where
  "untag_ref (YTagged t v) = untag_ref v"
| "untag_ref v = v"

definition yaml_get :: "yaml \<Rightarrow> string \<Rightarrow> yaml option" where
  "yaml_get v key = (case untag_ref v of YMapping m \<Rightarrow> map_of m (YString key) | _ \<Rightarrow> None)"

definition as_mapping :: "yaml \<Rightarrow> (yaml \<times> yaml) list option" where
  "as_mapping v = (case untag_ref v of YMapping m \<Rightarrow> Some m | _ \<Rightarrow> None)"

definition as_str :: "yaml \<Rightarrow> string option" where
  "as_str v = (case untag_ref v of YString s \<Rightarrow> Some s | _ \<Rightarrow> None)"

definition unwrap_or_default :: "string option \<Rightarrow> string" where
  "unwrap_or_default x = (case x of None \<Rightarrow> [] | Some s \<Rightarrow> s)"

definition unwrap_or :: "'e + 'a \<Rightarrow> 'a \<Rightarrow> 'a" where
  "unwrap_or r d = (case r of Inl _ \<Rightarrow> d | Inr v \<Rightarrow> v)"

text \<open>
  An \<^verbatim>\<open>anyhow::Error\<close>: the error of a library, given by its message, under the
  contexts attached to it.
\<close>

datatype error = Serde_yaml string | Serde_json string | Context string error

text \<open>\<^verbatim>\<open>let key_str = k.as_str().unwrap_or_default().to_string();\<close>\<close>

definition key_str :: "yaml \<Rightarrow> string" where
  "key_str k = unwrap_or_default (as_str k)"

text \<open>
  The loop \<^verbatim>\<open>for (k, v) in obj\<close> over the entries of the mapping, in their order. The
  result \<^verbatim>\<open>res\<close> is a \<^verbatim>\<open>HashMap\<close>; \<^verbatim>\<open>?\<close> leaves the function at the first value that
  \<^verbatim>\<open>serde_json::to_value\<close> (the parameter \<open>to_value\<close>) does not convert.
\<close>

fun insert_entries ::
  "(yaml \<Rightarrow> string + json) \<Rightarrow> (yaml \<times> yaml) list \<Rightarrow> (string \<rightharpoonup> json) \<Rightarrow> error + (string \<rightharpoonup> json)" where
  "insert_entries to_value [] res = Inr res"
| "insert_entries to_value ((k, v) # obj) res =
     (case to_value v of
        Inl e \<Rightarrow> Inl (Serde_json e)
      | Inr json_v \<Rightarrow> insert_entries to_value obj (res(key_str k \<mapsto> json_v)))"

text \<open>
  The fragments of \<^verbatim>\<open>fix_clippy.py\<close>. A fragment either returns from the function
  (\<open>Some\<close> of the returned result) or falls through (\<open>None\<close>).
\<close>

definition old_mcp1 ::
  "(yaml \<Rightarrow> string + json) \<Rightarrow> string option \<Rightarrow> yaml \<Rightarrow> (error + (string \<rightharpoonup> json)) option" where
  "old_mcp1 to_value wrapper_key parsed =
     (case wrapper_key of
        Some key \<Rightarrow>
          (case yaml_get parsed key of
             Some wrapped \<Rightarrow>
               (case as_mapping wrapped of
                  Some obj \<Rightarrow> Some (insert_entries to_value obj Map.empty)
                | None \<Rightarrow> None)
           | None \<Rightarrow> None)
      | None \<Rightarrow> None)"

definition new_mcp1 ::
  "(yaml \<Rightarrow> string + json) \<Rightarrow> string option \<Rightarrow> yaml \<Rightarrow> (error + (string \<rightharpoonup> json)) option" where
  "new_mcp1 to_value wrapper_key parsed =
     (case Option.bind (Option.bind wrapper_key (\<lambda>key. yaml_get parsed key)) (\<lambda>v. as_mapping v) of
        Some obj \<Rightarrow> Some (insert_entries to_value obj Map.empty)
      | None \<Rightarrow> None)"

text \<open>\<^verbatim>\<open>obj.iter().map(|(k, v)| (k.clone(), v.clone())).collect()\<close> into a \<^verbatim>\<open>HashMap\<close>.\<close>

definition collect :: "(string \<times> json) list \<Rightarrow> (string \<rightharpoonup> json)" where
  "collect entries = foldl (\<lambda>res (k, v). res(k \<mapsto> v)) Map.empty entries"

definition old_mcp2 :: "json \<Rightarrow> (error + (string \<rightharpoonup> json)) option" where
  "old_mcp2 parsed =
     (case json_get parsed ''mcpServers'' of
        Some mcp \<Rightarrow>
          (case as_object mcp of
             Some obj \<Rightarrow> Some (Inr (collect obj))
           | None \<Rightarrow> None)
      | None \<Rightarrow> None)"

definition new_mcp2 :: "json \<Rightarrow> (error + (string \<rightharpoonup> json)) option" where
  "new_mcp2 parsed =
     (case Option.bind (json_get parsed ''mcpServers'') (\<lambda>mcp. as_object mcp) of
        Some obj \<Rightarrow> Some (Inr (collect obj))
      | None \<Rightarrow> None)"

text \<open>
  The functions of \<^verbatim>\<open>fix_clippy_v2.py\<close>. The parsers \<^verbatim>\<open>serde_yaml::from_str\<close> and
  \<^verbatim>\<open>serde_json::from_str\<close> are the parameters \<open>yaml_from_str\<close> and \<open>json_from_str\<close>;
  \<open>wrapper_key\<close> is \<^verbatim>\<open>self.wrapper_key\<close>. The two texts of \<^verbatim>\<open>fix_clippy_v3.py\<close> for the
  YAML function differ from \<^verbatim>\<open>new_yaml_parse\<close> in their line breaks only.
\<close>

definition old_yaml_parse ::
  "(string \<Rightarrow> string + yaml) \<Rightarrow> (yaml \<Rightarrow> string + json) \<Rightarrow> string option \<Rightarrow> string
   \<Rightarrow> error + (string \<rightharpoonup> json)" where
  "old_yaml_parse yaml_from_str to_value wrapper_key content =
     (case yaml_from_str content of
        Inl e \<Rightarrow> Inl (Context ''Failed to parse YAML'' (Serde_yaml e))
      | Inr parsed \<Rightarrow>
          (case wrapper_key of
             Some key \<Rightarrow>
               (case yaml_get parsed key of
                  Some wrapped \<Rightarrow>
                    (case as_mapping wrapped of
                       Some obj \<Rightarrow> insert_entries to_value obj Map.empty
                     | None \<Rightarrow> Inr Map.empty)
                | None \<Rightarrow> Inr Map.empty)
           | None \<Rightarrow> Inr Map.empty))"

definition new_yaml_parse ::
  "(string \<Rightarrow> string + yaml) \<Rightarrow> (yaml \<Rightarrow> string + json) \<Rightarrow> string option \<Rightarrow> string
   \<Rightarrow> error + (string \<rightharpoonup> json)" where
  "new_yaml_parse yaml_from_str to_value wrapper_key content =
     (case yaml_from_str content of
        Inl e \<Rightarrow> Inl (Context ''Failed to parse YAML'' (Serde_yaml e))
      | Inr parsed \<Rightarrow>
          (case Option.bind (Option.bind wrapper_key (\<lambda>key. yaml_get parsed key))
                  (\<lambda>v. as_mapping v) of
             Some obj \<Rightarrow> insert_entries to_value obj Map.empty
           | None \<Rightarrow> Inr Map.empty))"

definition old_continue_parse :: "(string \<Rightarrow> string + json) \<Rightarrow> string \<Rightarrow> error + (string \<rightharpoonup> json)" where
  "old_continue_parse json_from_str content =
     (let parsed = unwrap_or (json_from_str content) (JObject []) in
      case json_get parsed ''mcpServers'' of
        Some mcp \<Rightarrow>
          (case as_object mcp of
             Some obj \<Rightarrow> Inr (collect obj)
           | None \<Rightarrow> Inr Map.empty)
      | None \<Rightarrow> Inr Map.empty)"

definition new_continue_parse :: "(string \<Rightarrow> string + json) \<Rightarrow> string \<Rightarrow> error + (string \<rightharpoonup> json)" where
  "new_continue_parse json_from_str content =
     (let parsed = unwrap_or (json_from_str content) (JObject []) in
      case Option.bind (json_get parsed ''mcpServers'') (\<lambda>mcp. as_object mcp) of
        Some obj \<Rightarrow> Inr (collect obj)
      | None \<Rightarrow> Inr Map.empty)"

text \<open>
  Library functions for the examples. The parsers know the documents listed here and
  report any other content as malformed. The conversion takes a scalar to the same
  scalar; a container or a tagged value is reported with the error that \<^verbatim>\<open>serde_json\<close>
  gives for a mapping with a key that is a sequence.
\<close>

definition yaml_from_str_plain :: "string \<Rightarrow> string + yaml" where
  "yaml_from_str_plain content =
     (if content = ''{}'' then Inr (YMapping [])
      else if content = ''mcpServers: {a: x, 1: y, true: z}'' then
        Inr (YMapping [(YString ''mcpServers'',
               YMapping [(YString ''a'', YString ''x''),
                         (YNumber (PosInt 1), YString ''y''),
                         (YBool True, YString ''z'')])])
      else if content = ''mcpServers: {a: {[b]: c}}'' then
        Inr (YMapping [(YString ''mcpServers'',
               YMapping [(YString ''a'', YMapping [(YSequence [YString ''b''], YString ''c'')])])])
      else Inl ''malformed document'')"

definition json_from_str_plain :: "string \<Rightarrow> string + json" where
  "json_from_str_plain content =
     (if content = ''{}'' then Inr (JObject [])
      else if content = ''{\"mcpServers\": {\"a\": \"x\"}}'' then
        Inr (JObject [(''mcpServers'', JObject [(''a'', JString ''x'')])])
      else Inl ''malformed document'')"

definition to_value_plain :: "yaml \<Rightarrow> string + json" where
  "to_value_plain v =
     (case v of
        YNull \<Rightarrow> Inr JNull
      | YBool b \<Rightarrow> Inr (JBool b)
      | YNumber n \<Rightarrow> Inr (JNumber n)
      | YString s \<Rightarrow> Inr (JString s)
      | _ \<Rightarrow> Inl ''key must be a string'')"

section \<open>The merge of the canonical server set\<close>

text \<open>
  Modelled from the spec: the value model and the merge engine. No source file holds
  the merge; sections 2, 3 and 4.2 of the specification describe it. A value is a
  mapping, a sequence or a scalar; the order of the keys of a mapping carries no
  meaning, so a mapping is a finite map and two documents are structurally equal,
  ignoring the order of keys, exactly when they are equal.
\<close>

datatype scalar = SNull | SBool bool | SNumber number | SString string

datatype tree = Scalar scalar | Sequence "tree list" | Mapping "(string, tree) fmap"



text \<open>
  Modelled from the spec: the merge step. Every name of the canonical server set gets
  its canonical value in the working subtree; the other names of the working subtree
  stay as they are.
\<close>

definition merge_step :: "(string, tree) fmap \<Rightarrow> (string, tree) fmap \<Rightarrow> (string, tree) fmap" where
  "merge_step canonical working = working ++\<^sub>f canonical"



section \<open>The patch script \<^verbatim>\<open>fix_clippy.py\<close>\<close>

text \<open>
  \<^verbatim>\<open>fix_clippy.py\<close> reads a file, replaces a snippet by another with \<^verbatim>\<open>str.replace\<close>
  and writes the result back. \<^verbatim>\<open>s.replace(old, new)\<close> replaces the occurrences of
  \<^verbatim>\<open>old\<close> that a scan from the left finds, none overlapping another; with the empty
  \<^verbatim>\<open>old\<close> it puts \<^verbatim>\<open>new\<close> before every character and at the end.
\<close>

function replace :: "'a list \<Rightarrow> 'a list \<Rightarrow> 'a list \<Rightarrow> 'a list" where
  "replace old new [] = (if old = [] then new else [])"
| "replace old new (c # cs) =
     (if old = [] then new @ c # replace old new cs
      else if prefix old (c # cs) then new @ replace old new (drop (length old) (c # cs))
      else c # replace old new cs)"
  by pat_completeness auto
termination
  by (relation "measure (\<lambda>(old, new, s). length s)") auto

text \<open>
  A Python \<^verbatim>\<open>str\<close> is a sequence of code points. The snippets of the script are ASCII
  text; the content of a file is any sequence of code points.
\<close>

definition code_points :: "string \<Rightarrow> nat list" where
  "code_points s = map of_char s"

text \<open>The six snippets of \<^verbatim>\<open>fix_clippy.py\<close>, character for character.\<close>

definition old_fs_text :: string where
  "old_fs_text =
       ''        if let Some(parent) = dst_abs.parent() {\<newline>''
     @ ''            if let Ok(parent_canon) = fs::canonicalize(parent) {\<newline>''
     @ ''                if parent_canon.starts_with(&src_canon) {\<newline>''
     @ ''                    return Err(std::io::Error::new(\<newline>''
     @ ''                        std::io::ErrorKind::InvalidInput,\<newline>''
     @ ''                        format!(\"Cannot copy directory into itself: {:?} is inside {:?}\", dst_abs, src_canon),\<newline>''
     @ ''                    ).into());\<newline>''
     @ ''                }\<newline>''
     @ ''            }\<newline>''
     @ ''        }''"

definition new_fs_text :: string where
  "new_fs_text =
       ''        if let Some(parent_canon) = dst_abs.parent().and_then(|p| fs::canonicalize(p).ok()) {\<newline>''
     @ ''            if parent_canon.starts_with(&src_canon) {\<newline>''
     @ ''                return Err(std::io::Error::new(\<newline>''
     @ ''                    std::io::ErrorKind::InvalidInput,\<newline>''
     @ ''                    format!(\"Cannot copy directory into itself: {:?} is inside {:?}\", dst_abs, src_canon),\<newline>''
     @ ''                ).into());\<newline>''
     @ ''            }\<newline>''
     @ ''        }''"

definition old_mcp1_text :: string where
  "old_mcp1_text =
       ''        if let Some(key) = self.wrapper_key {\<newline>''
     @ ''            if let Some(wrapped) = parsed.get(key) {\<newline>''
     @ ''                if let Some(obj) = wrapped.as_mapping() {\<newline>''
     @ ''                   let mut res = HashMap::new();\<newline>''
     @ ''                   for (k, v) in obj {\<newline>''
     @ ''                       let key_str = k.as_str().unwrap_or_default().to_string();\<newline>''
     @ ''                       let json_v = serde_json::to_value(v)?;\<newline>''
     @ ''                       res.insert(key_str, json_v);\<newline>''
     @ ''                   }\<newline>''
     @ ''                   return Ok(res);\<newline>''
     @ ''                }\<newline>''
     @ ''            }\<newline>''
     @ ''        }''"

definition new_mcp1_text :: string where
  "new_mcp1_text =
       ''        if let Some(obj) = self.wrapper_key.and_then(|key| parsed.get(key)).and_then(|v| v.as_mapping()) {\<newline>''
     @ ''            let mut res = HashMap::new();\<newline>''
     @ ''            for (k, v) in obj {\<newline>''
     @ ''                let key_str = k.as_str().unwrap_or_default().to_string();\<newline>''
     @ ''                let json_v = serde_json::to_value(v)?;\<newline>''
     @ ''                res.insert(key_str, json_v);\<newline>''
     @ ''            }\<newline>''
     @ ''            return Ok(res);\<newline>''
     @ ''        }''"

definition old_mcp2_text :: string where
  "old_mcp2_text =
       ''        if let Some(mcp) = parsed.get(\"mcpServers\") {\<newline>''
     @ ''            if let Some(obj) = mcp.as_object() {\<newline>''
     @ ''                return Ok(obj.iter().map(|(k, v)| (k.clone(), v.clone())).collect());\<newline>''
     @ ''            }\<newline>''
     @ ''        }''"

definition new_mcp2_text :: string where
  "new_mcp2_text =
       ''        if let Some(obj) = parsed.get(\"mcpServers\").and_then(|mcp| mcp.as_object()) {\<newline>''
     @ ''            return Ok(obj.iter().map(|(k, v)| (k.clone(), v.clone())).collect());\<newline>''
     @ ''        }''"

text \<open>
  \<^verbatim>\<open>fs_content = fs_content.replace(old_fs, new_fs)\<close> and
  \<^verbatim>\<open>mcp_content = mcp_content.replace(old_mcp1, new_mcp1).replace(old_mcp2, new_mcp2)\<close>:
  what the script makes of the content of \<^verbatim>\<open>src/fs.rs\<close> and of \<^verbatim>\<open>src/mcp.rs\<close>.
\<close>

definition patch_fs_rs :: "nat list \<Rightarrow> nat list" where
  "patch_fs_rs fs_content =
     replace (code_points old_fs_text) (code_points new_fs_text) fs_content"

definition patch_mcp_rs :: "nat list \<Rightarrow> nat list" where
  "patch_mcp_rs mcp_content =
     replace (code_points old_mcp2_text) (code_points new_mcp2_text)
       (replace (code_points old_mcp1_text) (code_points new_mcp1_text) mcp_content)"

text \<open>
  Two texts clash when they differ at a position that both have. A text is apart from a
  pattern when each of its non-empty suffixes clashes with the pattern: then neither
  occurs in the other, and no end of one is a start of the other.
\<close>

fun clash :: "'a list \<Rightarrow> 'a list \<Rightarrow> bool" where
  "clash (a # as) (b # bs) = (a \<noteq> b \<or> clash as bs)"
| "clash _ _ = False"

fun apart :: "'a list \<Rightarrow> 'a list \<Rightarrow> bool" where
  "apart [] p = True"
| "apart (c # cs) p = (clash (c # cs) p \<and> apart cs p)"

section \<open>Facts about paths and the guard\<close>

lemma iter_after_prefix: "(iter_after p base = None) = (\<not> prefix base p)"
  by (induction p base rule: iter_after.induct) simp_all

lemma starts_with_prefix: "starts_with p base = prefix base p"
  unfolding starts_with_def iter_after_prefix by simp

lemma starts_with_refl: "starts_with p p"
  by (simp add: starts_with_prefix)

lemma parent_snoc_Normal: "parent (p @ [Normal name]) = Some p"
  by (simp add: parent_def)

lemma old_fs_new_fs: "old_fs canonicalize dst_abs src_canon = new_fs canonicalize dst_abs src_canon"
  by (simp add: old_fs_def new_fs_def ok_def split: option.splits sum.splits)

lemma new_fs_unfold:
  "new_fs canonicalize dst_abs src_canon =
     (case parent dst_abs of
        None \<Rightarrow> Inr ()
      | Some p \<Rightarrow>
          (case canonicalize p of
             Inl e \<Rightarrow> Inr ()
           | Inr pc \<Rightarrow> if starts_with pc src_canon then Inl (into_itself dst_abs src_canon) else Inr ()))"
  by (simp add: new_fs_def ok_def split: option.splits sum.splits)

lemma new_fs_v3_iff:
  "new_fs_v3 canonicalize dst_abs src_canon = (new_fs canonicalize dst_abs src_canon \<noteq> Inr ())"
  by (simp add: new_fs_v3_def new_fs_def is_some_def filter_option_def ok_def
           split: option.splits sum.splits)

lemma old_fs_v3_new_fs_v3:
  "old_fs_v3 canonicalize dst_abs src_canon = new_fs_v3 canonicalize dst_abs src_canon"
  by (simp add: old_fs_v3_def new_fs_v3_def is_some_def split: option.splits)

lemma components_foo_bar: "components ''/foo/bar'' = [RootDir, Normal ''foo'', Normal ''bar'']"
  by code_simp

lemma components_foo_bar2: "components ''/foo/bar2'' = [RootDir, Normal ''foo'', Normal ''bar2'']"
  by code_simp

lemma parent_self_not_below:
  assumes "parent p = Some q"
  shows "\<not> starts_with q p"
proof -
  from assms have "q = butlast p" and "p \<noteq> []"
    by (auto simp: parent_def split: list.splits component.splits)
  then have "length q < length p"
    by simp
  then show ?thesis
    by (auto simp: starts_with_prefix dest: prefix_length_le)
qed

section \<open>The claims about the directory copier\<close>

text \<open>
  C1. A copy request with an existing source directory \<open>S\<close> (it canonicalizes) and the
  destination \<open>S/sub\<close> fails with the error of kind \<open>InvalidInput\<close> whose message starts
  with "Cannot copy directory into itself", and the file system is left as it was: no
  entry is created under \<open>S/sub\<close>.
\<close>

theorem self_nesting_rejected:
  assumes "canonicalize fs S = Inr src_canon"
  shows "copy_dir canonicalize copy_tree fs S (S @ [Normal sub])
           = (Inl (into_itself (S @ [Normal sub]) src_canon), fs)
         \<and> (\<exists>rest. into_itself (S @ [Normal sub]) src_canon
               = Io_error InvalidInput (Lit ''Cannot copy directory into itself: '' # rest))"
  using assms
  by (simp add: copy_dir_def new_fs_unfold parent_snoc_Normal starts_with_refl into_itself_def)

theorem self_nesting_rejected_witness:
  "canonicalize_plain [[RootDir, Normal ''s'']] [RootDir, Normal ''s''] = Inr [RootDir, Normal ''s'']
   \<and> copy_dir canonicalize_plain copy_tree_plain [[RootDir, Normal ''s'']]
        [RootDir, Normal ''s''] [RootDir, Normal ''s'', Normal ''sub'']
      = (Inl (into_itself [RootDir, Normal ''s'', Normal ''sub''] [RootDir, Normal ''s'']),
         [[RootDir, Normal ''s'']])"
  using self_nesting_rejected [of canonicalize_plain "[[RootDir, Normal ''s'']]"
          "[RootDir, Normal ''s'']" "[RootDir, Normal ''s'']" copy_tree_plain "''sub''"]
  by (simp add: canonicalize_plain_def)

text \<open>
  C2 as stated fails: when the parent of the destination does not exist, the guard does
  not walk up to an existing ancestor. In the file system with the directories \<^verbatim>\<open>/\<close> and
  \<^verbatim>\<open>/s\<close> only, the parent \<^verbatim>\<open>/s/a\<close> of the destination \<^verbatim>\<open>/s/a/b\<close> is not found; the
  resolution of the specification gives \<^verbatim>\<open>/s/a\<close>, which lies inside the source root
  \<^verbatim>\<open>/s\<close>; the guard lets the request pass.
\<close>

theorem missing_parent_counterexample:
  "canonicalize_plain [[RootDir], [RootDir, Normal ''s'']] [RootDir, Normal ''s'', Normal ''a'']
     = Inl (Io_error NotFound [])
   \<and> resolve (canonicalize_plain [[RootDir], [RootDir, Normal ''s'']])
        [RootDir, Normal ''s'', Normal ''a'']
     = Some [RootDir, Normal ''s'', Normal ''a'']
   \<and> starts_with [RootDir, Normal ''s'', Normal ''a''] [RootDir, Normal ''s'']
   \<and> new_fs (canonicalize_plain [[RootDir], [RootDir, Normal ''s'']])
        [RootDir, Normal ''s'', Normal ''a'', Normal ''b''] [RootDir, Normal ''s'']
     = Inr ()"
  by (simp add: canonicalize_plain_def new_fs_unfold parent_def starts_with_def)

text \<open>
  C2, amended. The guard has no walk to an existing ancestor. When the parent of the
  destination cannot be canonicalized, the failure is dropped: the guard raises nothing
  and lets the request pass. The only error of the guard is the structural one, and it is
  returned exactly when the parent canonicalizes to a path that starts, component by
  component, with the canonical source root. The condition of \<^verbatim>\<open>fix_clippy_v3.py\<close> holds
  exactly when the guard rejects.
\<close>

theorem missing_parent_passes:
  "(parent dst_abs = Some p \<and> canonicalize p = Inl e
      \<longrightarrow> new_fs canonicalize dst_abs src_canon = Inr ())
   \<and> (new_fs canonicalize dst_abs src_canon = Inl err
      \<longleftrightarrow> err = into_itself dst_abs src_canon
          \<and> (\<exists>q pc. parent dst_abs = Some q \<and> canonicalize q = Inr pc \<and> starts_with pc src_canon))
   \<and> new_fs_v3 canonicalize dst_abs src_canon
       = (new_fs canonicalize dst_abs src_canon = Inl (into_itself dst_abs src_canon))"
  by (auto simp: new_fs_unfold new_fs_v3_def is_some_def filter_option_def ok_def
           split: option.splits sum.splits)

theorem missing_parent_passes_witness:
  "parent [RootDir, Normal ''s'', Normal ''a'', Normal ''b''] = Some [RootDir, Normal ''s'', Normal ''a'']
   \<and> canonicalize_plain [[RootDir], [RootDir, Normal ''s'']] [RootDir, Normal ''s'', Normal ''a'']
       = Inl (Io_error NotFound [])
   \<and> new_fs (canonicalize_plain [[RootDir], [RootDir, Normal ''s'']])
        [RootDir, Normal ''s'', Normal ''a'', Normal ''b''] [RootDir, Normal ''s'']
     = Inr ()"
  using missing_parent_passes [of "[RootDir, Normal ''s'', Normal ''a'', Normal ''b'']"
          "[RootDir, Normal ''s'', Normal ''a'']"
          "canonicalize_plain [[RootDir], [RootDir, Normal ''s'']]" "Io_error NotFound []"
          "[RootDir, Normal ''s'']"]
  by (simp add: canonicalize_plain_def parent_def)

text \<open>
  C4 as stated fails: the guard looks at the parent of the destination, never at the
  destination root itself. In the file system with the directories \<^verbatim>\<open>/\<close>, \<^verbatim>\<open>/a\<close> and
  \<^verbatim>\<open>/a/b\<close>, the destination \<^verbatim>\<open>/a/b\<close> is canonically equal to the source root \<^verbatim>\<open>/a/b\<close>,
  and the guard lets the request pass.
\<close>

theorem equal_roots_counterexample:
  "canonicalize_plain [[RootDir], [RootDir, Normal ''a''], [RootDir, Normal ''a'', Normal ''b'']]
       [RootDir, Normal ''a'', Normal ''b'']
     = Inr [RootDir, Normal ''a'', Normal ''b'']
   \<and> new_fs (canonicalize_plain [[RootDir], [RootDir, Normal ''a''], [RootDir, Normal ''a'', Normal ''b'']])
        [RootDir, Normal ''a'', Normal ''b''] [RootDir, Normal ''a'', Normal ''b'']
     = Inr ()"
  by (simp add: canonicalize_plain_def new_fs_unfold parent_def starts_with_def)

text \<open>
  C4, amended. The "into itself" error is decided by the parent of the destination: a
  destination whose parent is canonically equal to the source root is rejected with it.
  A destination that is the canonical source root itself, with a parent that
  canonicalizes to itself (or with no parent), is not rejected by the guard.
\<close>

theorem into_itself_by_parent:
  "(parent dst_abs = Some p \<and> canonicalize p = Inr src_canon
      \<longrightarrow> new_fs canonicalize dst_abs src_canon = Inl (into_itself dst_abs src_canon))
   \<and> (parent src_canon = Some q \<and> canonicalize q = Inr q
      \<longrightarrow> new_fs canonicalize src_canon src_canon = Inr ())
   \<and> (parent src_canon = None \<longrightarrow> new_fs canonicalize src_canon src_canon = Inr ())"
  by (simp add: new_fs_unfold starts_with_refl parent_self_not_below)

theorem into_itself_by_parent_witness:
  "new_fs (canonicalize_plain [[RootDir], [RootDir, Normal ''a'']])
      [RootDir, Normal ''a'', Normal ''b''] [RootDir, Normal ''a'']
     = Inl (into_itself [RootDir, Normal ''a'', Normal ''b''] [RootDir, Normal ''a''])
   \<and> new_fs (canonicalize_plain [[RootDir], [RootDir, Normal ''a'']])
      [RootDir, Normal ''a''] [RootDir, Normal ''a'']
     = Inr ()
   \<and> new_fs (canonicalize_plain [[RootDir], [RootDir, Normal ''a'']]) [RootDir] [RootDir] = Inr ()"
  using into_itself_by_parent [of "[RootDir, Normal ''a'', Normal ''b'']" "[RootDir, Normal ''a'']"
          "canonicalize_plain [[RootDir], [RootDir, Normal ''a'']]" "[RootDir, Normal ''a'']" "[RootDir]"]
    into_itself_by_parent [of "[RootDir, Normal ''a'', Normal ''b'']" "[RootDir, Normal ''a'']"
          "canonicalize_plain [[RootDir], [RootDir, Normal ''a'']]" "[RootDir]" "[]"]
  by (simp add: canonicalize_plain_def parent_def)

text \<open>
  C7. The containment check \<^verbatim>\<open>starts_with\<close> compares whole path components: a path
  starts with a base exactly when its component sequence is the base's followed by more
  components. No path that begins with the components of \<^verbatim>\<open>/foo/bar2\<close> starts with
  \<^verbatim>\<open>/foo/bar\<close>, although the string \<^verbatim>\<open>/foo/bar\<close> is a prefix of the string
  \<^verbatim>\<open>/foo/bar2\<close>; the guard lets a destination pass whose canonical parent is such a path
  when the canonical source root is \<^verbatim>\<open>/foo/bar\<close>.
\<close>

theorem starts_with_componentwise:
  "starts_with p base = (\<exists>rest. p = base @ rest)
   \<and> \<not> starts_with (components ''/foo/bar2'' @ more) (components ''/foo/bar'')
   \<and> prefix ''/foo/bar'' ''/foo/bar2''
   \<and> (parent dst_abs = Some q \<and> canonicalize q = Inr (components ''/foo/bar2'' @ more)
        \<longrightarrow> new_fs canonicalize dst_abs (components ''/foo/bar'') = Inr ())"
proof -
  have a: "starts_with p base = (\<exists>rest. p = base @ rest)"
    by (simp add: starts_with_prefix prefix_def)
  have b: "\<not> starts_with (components ''/foo/bar2'' @ more) (components ''/foo/bar'')"
    by (simp add: components_foo_bar components_foo_bar2 starts_with_def)
  have c: "prefix ''/foo/bar'' ''/foo/bar2''"
    by simp
  from b have d: "parent dst_abs = Some q \<and> canonicalize q = Inr (components ''/foo/bar2'' @ more)
        \<longrightarrow> new_fs canonicalize dst_abs (components ''/foo/bar'') = Inr ()"
    by (simp add: new_fs_unfold)
  from a b c d show ?thesis
    by blast
qed

theorem starts_with_componentwise_witness:
  "new_fs (canonicalize_plain [[RootDir, Normal ''foo'', Normal ''bar2'']])
      [RootDir, Normal ''foo'', Normal ''bar2'', Normal ''sub''] (components ''/foo/bar'')
     = Inr ()"
  using starts_with_componentwise [where dst_abs = "[RootDir, Normal ''foo'', Normal ''bar2'', Normal ''sub'']"
          and q = "[RootDir, Normal ''foo'', Normal ''bar2'']"
          and canonicalize = "canonicalize_plain [[RootDir, Normal ''foo'', Normal ''bar2'']]"
          and more = "[]"]
  by (simp add: canonicalize_plain_def parent_def components_foo_bar2)

section \<open>Facts about \<^verbatim>\<open>parse_existing\<close>\<close>


lemma insert_entries_Inl:
  assumes "(k, v) \<in> set obj" and "to_value v = Inl e"
  shows "\<exists>e'. insert_entries to_value obj res = Inl (Serde_json e')"
  using assms
  by (induction obj arbitrary: res) (auto split: sum.splits)

lemma insert_entries_lookup:
  assumes "insert_entries to_value obj res = Inr r"
  shows "r name =
     (case filter (\<lambda>e. key_str (fst e) = name) obj of
        [] \<Rightarrow> res name
      | e # es \<Rightarrow> ok (to_value (snd (last (e # es)))))"
  using assms
proof (induction obj arbitrary: res)
  case Nil
  then show ?case by simp
next
  case (Cons kv obj)
  obtain k v where kv: "kv = (k, v)" by (cases kv)
  from Cons.prems obtain j where j: "to_value v = Inr j"
    and rest: "insert_entries to_value obj (res(key_str k \<mapsto> j)) = Inr r"
    by (auto simp: kv split: sum.splits)
  from Cons.IH [OF rest] show ?case
    by (auto simp: kv j ok_def split: list.splits)
qed

section \<open>The claims about \<^verbatim>\<open>parse_existing\<close>\<close>

text \<open>
  C3 as stated fails for the YAML adapter: \<^verbatim>\<open>parse_existing\<close> hands a parse failure to
  its caller, under the context "Failed to parse YAML". The content \<^verbatim>\<open>{\<close> is malformed.
\<close>

theorem yaml_parse_failure_counterexample:
  "yaml_from_str_plain ''{'' = Inl ''malformed document''
   \<and> new_yaml_parse yaml_from_str_plain to_value_plain (Some ''mcpServers'') ''{''
       = Inl (Context ''Failed to parse YAML'' (Serde_yaml ''malformed document''))"
  by (simp add: new_yaml_parse_def yaml_from_str_plain_def)

text \<open>
  C3, amended. The JSON adapter (\<^verbatim>\<open>new_continue_parse\<close>) treats a content that does not
  parse as the empty document and returns the empty map. The YAML adapter
  (\<^verbatim>\<open>new_yaml_parse\<close>) returns the parse failure as an error, under the context
  "Failed to parse YAML".
\<close>

theorem parse_failure_by_adapter:
  "(json_from_str content = Inl e
      \<longrightarrow> new_continue_parse json_from_str content = Inr Map.empty)
   \<and> (yaml_from_str content = Inl e
      \<longrightarrow> new_yaml_parse yaml_from_str to_value wrapper_key content
            = Inl (Context ''Failed to parse YAML'' (Serde_yaml e)))"
  by (simp add: new_continue_parse_def new_yaml_parse_def unwrap_or_def json_get_def)

theorem parse_failure_by_adapter_witness:
  "json_from_str_plain ''{'' = Inl ''malformed document''
   \<and> new_continue_parse json_from_str_plain ''{'' = Inr Map.empty
   \<and> new_yaml_parse yaml_from_str_plain to_value_plain None ''{''
       = Inl (Context ''Failed to parse YAML'' (Serde_yaml ''malformed document''))"
  using parse_failure_by_adapter [where json_from_str = json_from_str_plain and content = "''{''"
          and e = "''malformed document''" and yaml_from_str = yaml_from_str_plain
          and to_value = to_value_plain and wrapper_key = None]
  by (simp add: json_from_str_plain_def yaml_from_str_plain_def)




text \<open>
  C6. The rewritten lookups return what the nested conditionals they replace return, on
  every input: the two fragments of \<^verbatim>\<open>fix_clippy.py\<close> and the two functions of
  \<^verbatim>\<open>fix_clippy_v2.py\<close>.
\<close>

theorem pipeline_equals_nested:
  "old_mcp1 to_value wrapper_key parsed = new_mcp1 to_value wrapper_key parsed
   \<and> old_mcp2 jparsed = new_mcp2 jparsed
   \<and> old_yaml_parse yaml_from_str to_value wrapper_key content
       = new_yaml_parse yaml_from_str to_value wrapper_key content
   \<and> old_continue_parse json_from_str content = new_continue_parse json_from_str content"
  by (simp add: old_mcp1_def new_mcp1_def old_mcp2_def new_mcp2_def old_yaml_parse_def
        new_yaml_parse_def old_continue_parse_def new_continue_parse_def
        split: option.splits sum.splits)

text \<open>
  C9. In the YAML adapter a key of the wrapper mapping that is not a string gets the
  empty name. When \<^verbatim>\<open>parse_existing\<close> returns a map, all the entries with the empty name
  are one entry of the map, and its value is the converted value of the last of them in
  the order of the mapping.
\<close>

theorem non_string_keys_collapse:
  assumes "yaml_from_str content = Inr parsed"
    and "yaml_get parsed key = Some wrapped" and "as_mapping wrapped = Some obj"
    and "new_yaml_parse yaml_from_str to_value (Some key) content = Inr res"
    and "(k, v) \<in> set obj" and "as_str k = None"
  shows "key_str k = []
     \<and> (\<exists>j. to_value (snd (last (filter (\<lambda>e. key_str (fst e) = []) obj))) = Inr j
            \<and> res [] = Some j)"
proof -
  have name: "key_str k = []"
    using assms(6) by (simp add: key_str_def unwrap_or_default_def)
  with assms(5) have "(k, v) \<in> set (filter (\<lambda>e. key_str (fst e) = []) obj)"
    by simp
  then obtain e es where es: "filter (\<lambda>e. key_str (fst e) = []) obj = e # es"
    by (cases "filter (\<lambda>e. key_str (fst e) = []) obj") auto
  from assms(4) have ins: "insert_entries to_value obj Map.empty = Inr res"
    using assms(1) assms(2) assms(3) by (simp add: new_yaml_parse_def)
  have conv: "\<exists>j. to_value v' = Inr j" if "(k', v') \<in> set obj" for k' v'
    using that ins insert_entries_Inl [of k' v' obj to_value _ Map.empty]
    by (cases "to_value v'") auto
  have "last (e # es) \<in> set obj"
    using es by (metis filter_is_subset last_in_set list.distinct(1) subsetD)
  then obtain j where j: "to_value (snd (last (e # es))) = Inr j"
    using conv [of "fst (last (e # es))" "snd (last (e # es))"] by auto
  from insert_entries_lookup [of to_value obj Map.empty res "[]"] ins
  have "res [] = ok (to_value (snd (last (e # es))))"
    by (simp only: es list.case)
  then have "res [] = Some j"
    by (simp only: j ok_def sum.case)
  with name j es show ?thesis
    by simp
qed

theorem non_string_keys_collapse_witness:
  "key_str (YBool True) = [] \<and> key_str (YNumber (PosInt 1)) = []
   \<and> (\<exists>res. new_yaml_parse yaml_from_str_plain to_value_plain (Some ''mcpServers'')
               ''mcpServers: {a: x, 1: y, true: z}'' = Inr res
          \<and> res [] = Some (JString ''z'') \<and> res ''a'' = Some (JString ''x''))"
proof -
  let ?obj = "[(YString ''a'', YString ''x''), (YNumber (PosInt 1), YString ''y''),
               (YBool True, YString ''z'')]"
  let ?res = "[''a'' \<mapsto> JString ''x'', [] \<mapsto> JString ''z'']"
  have run: "new_yaml_parse yaml_from_str_plain to_value_plain (Some ''mcpServers'')
               ''mcpServers: {a: x, 1: y, true: z}'' = Inr ?res"
    by (simp add: new_yaml_parse_def yaml_from_str_plain_def yaml_get_def as_mapping_def
          as_str_def key_str_def unwrap_or_default_def to_value_plain_def)
  have one: "key_str (YNumber (PosInt 1)) = []"
    using non_string_keys_collapse [where yaml_from_str = yaml_from_str_plain
        and content = "''mcpServers: {a: x, 1: y, true: z}''"
        and parsed = "YMapping [(YString ''mcpServers'', YMapping ?obj)]"
        and key = "''mcpServers''" and wrapped = "YMapping ?obj" and obj = ?obj
        and to_value = to_value_plain and res = ?res
        and k = "YNumber (PosInt 1)" and v = "YString ''y''"] run
    by (simp add: yaml_from_str_plain_def yaml_get_def as_mapping_def as_str_def)
  have two: "key_str (YBool True) = [] \<and> ?res [] = Some (JString ''z'')"
    using non_string_keys_collapse [where yaml_from_str = yaml_from_str_plain
        and content = "''mcpServers: {a: x, 1: y, true: z}''"
        and parsed = "YMapping [(YString ''mcpServers'', YMapping ?obj)]"
        and key = "''mcpServers''" and wrapped = "YMapping ?obj" and obj = ?obj
        and to_value = to_value_plain and res = ?res
        and k = "YBool True" and v = "YString ''z''"] run
    by (simp add: yaml_from_str_plain_def yaml_get_def as_mapping_def as_str_def)
  from run one two show ?thesis
    by simp
qed

section \<open>Facts about the merge and the claim about it\<close>



lemma merge_step_lookup:
  "fmlookup (merge_step canonical working) name =
     (case fmlookup canonical name of Some v \<Rightarrow> Some v | None \<Rightarrow> fmlookup working name)"
  by (auto simp: merge_step_def fmdomI split: option.splits)


section \<open>Facts about \<^verbatim>\<open>replace\<close> and the claim about the patch script\<close>

lemma clash_not_prefix_left: "clash a b \<Longrightarrow> \<not> prefix a (b @ r)"
  by (induction a b rule: clash.induct) auto

lemma clash_not_prefix_right: "clash a b \<Longrightarrow> \<not> prefix b (a @ r)"
  by (induction a b rule: clash.induct) auto

lemma apart_suffix: "apart xs p \<Longrightarrow> suffix z xs \<Longrightarrow> z \<noteq> [] \<Longrightarrow> clash z p"
  by (induction xs) (auto simp: suffix_Cons)

lemma replace_keeps_no_prefix:
  assumes "old \<noteq> []" and "apart p new" and "\<not> prefix p (v @ s)"
  shows "\<not> prefix p (v @ replace old new s)"
  using assms
proof (induction old new s arbitrary: v rule: replace.induct)
  case (1 old new)
  then show ?case by simp
next
  case (2 old new c cs)
  show ?case
  proof (cases "prefix old (c # cs)")
    case True
    let ?R = "replace old new (drop (length old) (c # cs))"
    have "\<not> prefix p (v @ new @ ?R)"
    proof
      assume "prefix p (v @ new @ ?R)"
      then consider "prefix p v" | w where "p = v @ w" "prefix w (new @ ?R)"
        by (auto simp: prefix_append)
      then show False
      proof cases
        case 1
        then have "prefix p (v @ c # cs)" by (rule prefix_prefix)
        with "2.prems"(3) show False by simp
      next
        case 2
        show False
        proof (cases "w = []")
          case True
          with 2 have "prefix p (v @ c # cs)" by simp
          with "2.prems"(3) show False by simp
        next
          case False
          from 2(1) have "suffix w p" by (simp add: suffix_def)
          with "2.prems"(2) False have "clash w new" by (simp add: apart_suffix)
          then have "\<not> prefix w (new @ ?R)" by (rule clash_not_prefix_left)
          with 2(2) show False by simp
        qed
      qed
    qed
    with True "2.prems"(1) show ?thesis by simp
  next
    case False
    from "2.prems"(3) have "\<not> prefix p ((v @ [c]) @ cs)" by simp
    with "2.IH"(3) [of "v @ [c]"] False "2.prems"(1,2)
    have "\<not> prefix p ((v @ [c]) @ replace old new cs)" by simp
    with False "2.prems"(1) show ?thesis by simp
  qed
qed

lemma replace_no_occurrence:
  assumes "old \<noteq> []" and "p \<noteq> []" and "apart p new" and "apart new p"
    and "\<And>u. suffix u s \<Longrightarrow> prefix p u \<Longrightarrow> prefix old u"
    and "suffix u (replace old new s)"
  shows "\<not> prefix p u"
  using assms
proof (induction old new s arbitrary: u rule: replace.induct)
  case (1 old new)
  then show ?case by simp
next
  case (2 old new c cs)
  show ?case
  proof (cases "prefix old (c # cs)")
    case True
    let ?t = "drop (length old) (c # cs)"
    let ?R = "replace old new ?t"
    have "suffix ?t (c # cs)" by (rule suffix_drop)
    then have H: "\<And>u. suffix u ?t \<Longrightarrow> prefix p u \<Longrightarrow> prefix old u"
      using "2.prems"(5) suffix_order.trans by blast
    from "2.prems"(6) True "2.prems"(1) have "suffix u (new @ ?R)" by simp
    then have "suffix u ?R \<or> (\<exists>z. suffix z new \<and> u = z @ ?R)"
      by (auto simp: suffix_append)
    then consider "suffix u ?R" | z where "z \<noteq> []" "suffix z new" "u = z @ ?R"
      by (cases "u = ?R") auto
    then show ?thesis
    proof cases
      case 1
      with "2.IH"(2) [of u] True "2.prems"(1,2,3,4) H show ?thesis by blast
    next
      case 2
      from "2.prems"(4) 2(2) 2(1) have "clash z p" by (simp add: apart_suffix)
      then have "\<not> prefix p (z @ ?R)" by (rule clash_not_prefix_right)
      with 2(3) show ?thesis by simp
    qed
  next
    case False
    have H: "\<And>u. suffix u cs \<Longrightarrow> prefix p u \<Longrightarrow> prefix old u"
      using "2.prems"(5) by (simp add: suffix_Cons)
    from "2.prems"(6) False "2.prems"(1) have "suffix u (c # replace old new cs)" by simp
    then consider "u = c # replace old new cs" | "suffix u (replace old new cs)"
      by (auto simp: suffix_Cons)
    then show ?thesis
    proof cases
      case 1
      from False "2.prems"(5) [of "c # cs"] have "\<not> prefix p ([] @ c # cs)" by auto
      with "2.prems"(1,3) have "\<not> prefix p ([] @ replace old new (c # cs))"
        by (rule replace_keeps_no_prefix)
      with 1 False "2.prems"(1) show ?thesis by simp
    next
      case 2
      with "2.IH"(3) [of u] False "2.prems"(1,2,3,4) H show ?thesis by blast
    qed
  qed
qed

lemma replace_not_sublist:
  assumes "old \<noteq> []" and "p \<noteq> []" and "apart p new" and "apart new p"
    and "p = old \<or> \<not> sublist p s"
  shows "\<not> sublist p (replace old new s)"
proof -
  have "prefix old u" if "suffix u s" "prefix p u" for u
    using that assms(5) by (auto simp: sublist_altdef')
  with assms(1-4) have "\<not> prefix p u" if "suffix u (replace old new s)" for u
    using that replace_no_occurrence [of old p new s u] by blast
  then show ?thesis
    by (auto simp: sublist_altdef')
qed

lemma replace_absent:
  assumes "old \<noteq> []" and "\<not> sublist old s"
  shows "replace old new s = s"
  using assms
proof (induction old new s rule: replace.induct)
  case (1 old new)
  then show ?case by simp
next
  case (2 old new c cs)
  from "2.prems"(2) have a: "\<not> prefix old (c # cs)" and b: "\<not> sublist old cs"
    by (auto simp: sublist_Cons_right)
  with "2.IH"(3) "2.prems"(1) show ?case by simp
qed

lemma replace_idem:
  assumes "old \<noteq> []" and "apart old new" and "apart new old"
  shows "replace old new (replace old new s) = replace old new s"
  using assms replace_absent replace_not_sublist by blast

lemma apart_not_sublist:
  assumes "p \<noteq> []" and "apart new p"
  shows "\<not> sublist p new"
proof
  assume "sublist p new"
  then obtain u where u: "suffix u new" "prefix p u"
    by (auto simp: sublist_altdef')
  with assms(1) have "u \<noteq> []" by auto
  with assms(2) u(1) have "clash u p" by (simp add: apart_suffix)
  then have "\<not> prefix p (u @ [])" by (rule clash_not_prefix_right)
  with u(2) show False by simp
qed

lemma clash_code_points: "clash (code_points a) (code_points b) = clash a b"
  unfolding code_points_def by (induction a b rule: clash.induct) simp_all

lemma apart_code_points: "apart (code_points a) (code_points b) = apart a b"
proof (induction a)
  case Nil
  then show ?case by (simp add: code_points_def)
next
  case (Cons c cs)
  have "clash (code_points (c # cs)) (code_points b) = clash (c # cs) b"
    by (rule clash_code_points)
  with Cons show ?case by (simp add: code_points_def)
qed

lemma old_texts_nonempty:
  "code_points old_fs_text \<noteq> []" "code_points old_mcp1_text \<noteq> []"
  "code_points old_mcp2_text \<noteq> []"
  by (simp_all add: code_points_def old_fs_text_def old_mcp1_text_def old_mcp2_text_def)

lemma apart_old_fs_new_fs_raw: "apart old_fs_text new_fs_text"
  by code_simp

lemma apart_old_fs_new_fs: "apart (code_points old_fs_text) (code_points new_fs_text)"
  by (simp only: apart_code_points apart_old_fs_new_fs_raw)

lemma apart_new_fs_old_fs_raw: "apart new_fs_text old_fs_text"
  by code_simp

lemma apart_new_fs_old_fs: "apart (code_points new_fs_text) (code_points old_fs_text)"
  by (simp only: apart_code_points apart_new_fs_old_fs_raw)

lemma apart_old_mcp1_new_mcp1_raw: "apart old_mcp1_text new_mcp1_text"
  by code_simp

lemma apart_old_mcp1_new_mcp1: "apart (code_points old_mcp1_text) (code_points new_mcp1_text)"
  by (simp only: apart_code_points apart_old_mcp1_new_mcp1_raw)

lemma apart_new_mcp1_old_mcp1_raw: "apart new_mcp1_text old_mcp1_text"
  by code_simp

lemma apart_new_mcp1_old_mcp1: "apart (code_points new_mcp1_text) (code_points old_mcp1_text)"
  by (simp only: apart_code_points apart_new_mcp1_old_mcp1_raw)

lemma apart_old_mcp2_new_mcp2_raw: "apart old_mcp2_text new_mcp2_text"
  by code_simp

lemma apart_old_mcp2_new_mcp2: "apart (code_points old_mcp2_text) (code_points new_mcp2_text)"
  by (simp only: apart_code_points apart_old_mcp2_new_mcp2_raw)

lemma apart_new_mcp2_old_mcp2_raw: "apart new_mcp2_text old_mcp2_text"
  by code_simp

lemma apart_new_mcp2_old_mcp2: "apart (code_points new_mcp2_text) (code_points old_mcp2_text)"
  by (simp only: apart_code_points apart_new_mcp2_old_mcp2_raw)

lemma apart_old_mcp1_new_mcp2_raw: "apart old_mcp1_text new_mcp2_text"
  by code_simp

lemma apart_old_mcp1_new_mcp2: "apart (code_points old_mcp1_text) (code_points new_mcp2_text)"
  by (simp only: apart_code_points apart_old_mcp1_new_mcp2_raw)

lemma apart_new_mcp2_old_mcp1_raw: "apart new_mcp2_text old_mcp1_text"
  by code_simp

lemma apart_new_mcp2_old_mcp1: "apart (code_points new_mcp2_text) (code_points old_mcp1_text)"
  by (simp only: apart_code_points apart_new_mcp2_old_mcp1_raw)

text \<open>
  C10. The transformation of \<^verbatim>\<open>fix_clippy.py\<close> is idempotent on the content of each of
  its two files: applied to its own result, it returns that result, for every content.
  No new snippet contains the old snippet it replaces.
\<close>

theorem patch_idempotent:
  "patch_fs_rs (patch_fs_rs fs_content) = patch_fs_rs fs_content
   \<and> patch_mcp_rs (patch_mcp_rs mcp_content) = patch_mcp_rs mcp_content
   \<and> \<not> sublist (code_points old_fs_text) (code_points new_fs_text)
   \<and> \<not> sublist (code_points old_mcp1_text) (code_points new_mcp1_text)
   \<and> \<not> sublist (code_points old_mcp2_text) (code_points new_mcp2_text)"
proof -
  have fs: "patch_fs_rs (patch_fs_rs fs_content) = patch_fs_rs fs_content"
    unfolding patch_fs_rs_def
    using old_texts_nonempty(1) apart_old_fs_new_fs apart_new_fs_old_fs
    by (rule replace_idem)
  let ?o1 = "code_points old_mcp1_text" and ?n1 = "code_points new_mcp1_text"
  let ?o2 = "code_points old_mcp2_text" and ?n2 = "code_points new_mcp2_text"
  let ?y1 = "replace ?o1 ?n1 mcp_content"
  let ?y = "replace ?o2 ?n2 ?y1"
  have "\<not> sublist ?o1 ?y1"
    using old_texts_nonempty(2) apart_old_mcp1_new_mcp1 apart_new_mcp1_old_mcp1
    by (simp add: replace_not_sublist)
  then have "\<not> sublist ?o1 ?y"
    using old_texts_nonempty(2,3) apart_old_mcp1_new_mcp2 apart_new_mcp2_old_mcp1
    by (simp add: replace_not_sublist)
  then have one: "replace ?o1 ?n1 ?y = ?y"
    using old_texts_nonempty(2) by (simp add: replace_absent)
  have two: "replace ?o2 ?n2 ?y = ?y"
    using old_texts_nonempty(3) apart_old_mcp2_new_mcp2 apart_new_mcp2_old_mcp2
    by (rule replace_idem)
  have mcp: "patch_mcp_rs (patch_mcp_rs mcp_content) = patch_mcp_rs mcp_content"
    unfolding patch_mcp_rs_def by (simp only: one two)
  have "\<not> sublist (code_points old_fs_text) (code_points new_fs_text)"
    using old_texts_nonempty(1) apart_new_fs_old_fs by (rule apart_not_sublist)
  moreover have "\<not> sublist ?o1 ?n1"
    using old_texts_nonempty(2) apart_new_mcp1_old_mcp1 by (rule apart_not_sublist)
  moreover have "\<not> sublist ?o2 ?n2"
    using old_texts_nonempty(3) apart_new_mcp2_old_mcp2 by (rule apart_not_sublist)
  ultimately show ?thesis
    using fs mcp by simp
qed

end
